theory Spec2Isabelle
  imports Complex_Main "HOL-Library.AList" "HOL-Library.Sublist"
begin

section \<open>Buildkite test collector: the payload data model\<close>

text \<open>
  A shallow embedding of \<^verbatim>\<open>collector/payload.py\<close>. Frozen dataclasses are records,
  \<^verbatim>\<open>Optional\<close> fields are options, \<^verbatim>\<open>dataclasses.replace\<close> is a record update, a
  \<^verbatim>\<open>raise\<close> is the left summand of a result, and a Python dict under construction is
  an association list in insertion order (\<open>AList.update\<close> overwrites a key in place and
  appends a new key, as assignment to a dict entry does).
\<close>

subsection \<open>Values outside the module\<close>

text \<open>
  Modelled from the spec: \<^verbatim>\<open>instant.py\<close> is absent. An Instant is an opaque point in
  time that supports subtraction, yielding a duration. Here it is a count of microseconds
  (the resolution of \<^verbatim>\<open>timedelta\<close>) on the monotonic clock, and a \<^verbatim>\<open>timedelta\<close> is a
  signed count of microseconds.
\<close>

type_synonym Instant = int
type_synonym timedelta = int

text \<open>
  \<^verbatim>\<open>timedelta.total_seconds()\<close>: the duration in seconds. The source yields a float; the
  model keeps the exact quotient and does not model floating-point rounding.
\<close>

definition total_seconds :: "timedelta \<Rightarrow> real" where
  "total_seconds td = real_of_int td / 1000000"

datatype error =
    TypeError string
  | NoneOperandError
  | RecursionError

text \<open>
  Modelled from the spec: \<^verbatim>\<open>Instant.__sub__\<close> is absent. Subtracting two Instants
  yields a duration. The source also subtracts operands typed \<^verbatim>\<open>Optional[Instant]\<close>;
  subtraction is defined between two Instants only, so a \<^verbatim>\<open>None\<close> operand raises.
\<close>

definition instant_sub :: "Instant \<Rightarrow> Instant option \<Rightarrow> error + timedelta" where
  "instant_sub a b = (case b of None \<Rightarrow> Inl NoneOperandError | Some b' \<Rightarrow> Inr (a - b'))"

text \<open>Sequencing of a step that may raise with its continuation.\<close>

definition and_then :: "error + 'a \<Rightarrow> ('a \<Rightarrow> error + 'b) \<Rightarrow> error + 'b" where
  "and_then r f = (case r of Inl e \<Rightarrow> Inl e | Inr x \<Rightarrow> f x)"

text \<open>JSON values: \<^verbatim>\<open>JsonValue\<close> and \<^verbatim>\<open>JsonDict\<close> of the source, with \<^verbatim>\<open>None\<close> as null.\<close>

datatype json =
    JNull
  | JStr string
  | JNum real
  | JList "json list"
  | JDict "(string \<times> json) list"

type_synonym JsonDict = "(string \<times> json) list"

text \<open>Python values as a caller may pass them where the source checks \<^verbatim>\<open>isinstance\<close>.\<close>

datatype pyval =
    PyStr string
  | PyInt int
  | PyBool bool
  | PyNone



subsection \<open>Test results\<close>

type_synonym failure_expanded = "(string \<times> string list) list list"

datatype TestResult =
    TestResultPassed
  | TestResultFailed "string option" "failure_expanded option"
  | TestResultSkipped

definition failure_expanded_json :: "failure_expanded \<Rightarrow> json" where
  "failure_expanded_json fe =
     JList (map (\<lambda>m. JDict (map (\<lambda>(k, ls). (k, JList (map JStr ls))) m)) fe)"

subsection \<open>TestSpan\<close>

datatype Section = Http | Sql | Sleep | Annotation

fun section_str :: "Section \<Rightarrow> string" where
  "section_str Http = ''http''"
| "section_str Sql = ''sql''"
| "section_str Sleep = ''sleep''"
| "section_str Annotation = ''annotation''"

record TestSpan =
  span_section :: Section
  span_duration :: timedelta
  span_start_at :: "Instant option"
  span_end_at :: "Instant option"
  detail :: "string option"

definition TestSpan_as_json :: "TestSpan \<Rightarrow> Instant option \<Rightarrow> error + JsonDict" where
  "TestSpan_as_json self started_at =
     (let attrs = [(''section'', JStr (section_str (span_section self))),
                   (''duration'', JNum (total_seconds (span_duration self)))];
          attrs = (case detail self of
                     None \<Rightarrow> attrs
                   | Some d \<Rightarrow> AList.update ''detail'' (JStr d) attrs)
      in and_then
           (case span_start_at self of
              None \<Rightarrow> Inr attrs
            | Some s \<Rightarrow> and_then (instant_sub s started_at)
                (\<lambda>td. Inr (AList.update ''start_at'' (JNum (total_seconds td)) attrs)))
           (\<lambda>attrs. case span_end_at self of
              None \<Rightarrow> Inr attrs
            | Some e \<Rightarrow> and_then (instant_sub e started_at)
                (\<lambda>td. Inr (AList.update ''end_at'' (JNum (total_seconds td)) attrs))))"

subsection \<open>TestHistory\<close>

text \<open>
  The field \<^verbatim>\<open>children\<close> is annotated \<^verbatim>\<open>List['TestSpan']\<close> and defaults to the empty
  tuple: a history may hold its spans in a tuple or in a list, and the two differ under
  \<^verbatim>\<open>+\<close>.
\<close>

datatype 'a pyseq =
    PyTuple "'a list"
  | PyList "'a list"

fun items :: "'a pyseq \<Rightarrow> 'a list" where
  "items (PyTuple xs) = xs"
| "items (PyList xs) = xs"

record TestHistory =
  start_at :: "Instant option"
  end_at :: "Instant option"
  duration :: "timedelta option"
  children :: "TestSpan pyseq"

definition TestHistory_is_finished :: "TestHistory \<Rightarrow> bool" where
  "TestHistory_is_finished self = (end_at self \<noteq> None)"



text \<open>
  \<^verbatim>\<open>list(map(lambda span: span.as_json(started_at), self.children))\<close>: the spans are
  encoded from left to right and the first one that raises ends the encoding.
\<close>

fun map_result :: "('a \<Rightarrow> error + 'b) \<Rightarrow> 'a list \<Rightarrow> error + 'b list" where
  "map_result f [] = Inr []"
| "map_result f (x # xs) =
     and_then (f x) (\<lambda>y. and_then (map_result f xs) (\<lambda>ys. Inr (y # ys)))"

definition TestHistory_as_json :: "TestHistory \<Rightarrow> Instant option \<Rightarrow> error + JsonDict" where
  "TestHistory_as_json self started_at =
     and_then (map_result (\<lambda>sp. TestSpan_as_json sp started_at) (items (children self)))
       (\<lambda>cs.
          let attrs = [(''section'', JStr ''top''), (''children'', JList (map JDict cs))]
          in and_then
               (case start_at self of
                  None \<Rightarrow> Inr attrs
                | Some s \<Rightarrow> and_then (instant_sub s started_at)
                    (\<lambda>td. Inr (AList.update ''start_at'' (JNum (total_seconds td)) attrs)))
               (\<lambda>attrs. and_then
                  (case end_at self of
                     None \<Rightarrow> Inr attrs
                   | Some e \<Rightarrow> and_then (instant_sub e started_at)
                       (\<lambda>td. Inr (AList.update ''end_at'' (JNum (total_seconds td)) attrs)))
                  (\<lambda>attrs. case duration self of
                     None \<Rightarrow> Inr attrs
                   | Some d \<Rightarrow> Inr (AList.update ''duration'' (JNum (total_seconds d)) attrs))))"

subsection \<open>TestData\<close>

text \<open>
  The \<^verbatim>\<open>id\<close> field is a UUID of which the source only takes \<^verbatim>\<open>str(self.id)\<close>; the model
  keeps that string. The \<^verbatim>\<open>tags\<close> dict is an association list in insertion order.
\<close>

record TestData =
  td_id :: string
  scope :: string
  name :: string
  history :: TestHistory
  location :: "string option"
  file_name :: "string option"
  tags :: "(string \<times> string) list"
  result :: "TestResult option"

text \<open>\<^verbatim>\<open>Instant.now()\<close> reads the clock: the reading is an argument of the model.\<close>

definition TestData_start ::
  "Instant \<Rightarrow> string \<Rightarrow> string \<Rightarrow> string \<Rightarrow> string option \<Rightarrow> string option \<Rightarrow> TestData" where
  "TestData_start now i sc nm loc fn =
     \<lparr>td_id = i, scope = sc, name = nm,
      history = \<lparr>start_at = Some now, end_at = None, duration = None,
                 children = PyTuple []\<rparr>,
      location = loc, file_name = fn, tags = [], result = None\<rparr>"


text \<open>
  \<^verbatim>\<open>self.history and self.history.is_finished()\<close>: a dataclass instance is truthy, so
  the conjunction is the value of its second operand.
\<close>

definition TestData_is_finished :: "TestData \<Rightarrow> bool" where
  "TestData_is_finished self = TestHistory_is_finished (history self)"

definition finish :: "Instant \<Rightarrow> TestData \<Rightarrow> error + TestData" where
  "finish now self =
     (if TestData_is_finished self then Inr self
      else and_then (instant_sub now (start_at (history self)))
             (\<lambda>d. Inr (self\<lparr>history := (history self)\<lparr>end_at := Some now, duration := Some d\<rparr>\<rparr>)))"


definition failed :: "TestData \<Rightarrow> string option \<Rightarrow> failure_expanded option \<Rightarrow> TestData" where
  "failed self failure_reason failure_expanded =
     self\<lparr>result := Some (TestResultFailed failure_reason failure_expanded)\<rparr>"

definition skipped :: "TestData \<Rightarrow> TestData" where
  "skipped self = self\<lparr>result := Some TestResultSkipped\<rparr>"


definition opt_str_json :: "string option \<Rightarrow> json" where
  "opt_str_json s = (case s of None \<Rightarrow> JNull | Some v \<Rightarrow> JStr v)"

definition tags_json :: "(string \<times> string) list \<Rightarrow> json" where
  "tags_json ts = JDict (map (\<lambda>(k, v). (k, JStr v)) ts)"

text \<open>The three \<^verbatim>\<open>isinstance\<close> tests of \<^verbatim>\<open>as_json\<close> run one after the other.\<close>

definition result_attrs :: "TestResult option \<Rightarrow> JsonDict \<Rightarrow> JsonDict" where
  "result_attrs r attrs =
     (let attrs = (case r of
                     Some TestResultPassed \<Rightarrow> AList.update ''result'' (JStr ''passed'') attrs
                   | _ \<Rightarrow> attrs);
          attrs = (case r of
                     Some (TestResultFailed reason expanded) \<Rightarrow>
                       (let attrs = AList.update ''result'' (JStr ''failed'') attrs;
                            attrs = (case reason of
                                       None \<Rightarrow> attrs
                                     | Some fr \<Rightarrow> AList.update ''failure_reason'' (JStr fr) attrs)
                        in (case expanded of
                              None \<Rightarrow> attrs
                            | Some fe \<Rightarrow>
                                AList.update ''failure_expanded'' (failure_expanded_json fe) attrs))
                   | _ \<Rightarrow> attrs)
      in (case r of
            Some TestResultSkipped \<Rightarrow> AList.update ''result'' (JStr ''skipped'') attrs
          | _ \<Rightarrow> attrs))"

definition TestData_as_json :: "TestData \<Rightarrow> Instant option \<Rightarrow> error + JsonDict" where
  "TestData_as_json self started_at =
     and_then (TestHistory_as_json (history self) started_at)
       (\<lambda>h.
          let attrs = [(''id'', JStr (td_id self)),
                       (''scope'', JStr (scope self)),
                       (''name'', JStr (name self)),
                       (''location'', opt_str_json (location self)),
                       (''file_name'', opt_str_json (file_name self)),
                       (''history'', JDict h)];
              attrs = (if length (tags self) > 0
                       then AList.update ''tags'' (tags_json (tags self)) attrs
                       else attrs)
          in Inr (result_attrs (result self) attrs))"

subsection \<open>Payload\<close>

text \<open>
  \<^verbatim>\<open>run_env.py\<close> is absent: the run-environment descriptor is a type parameter, and its
  \<^verbatim>\<open>as_json()\<close> is an argument of the serialiser.
\<close>

record 'env Payload =
  run_env :: 'env
  data :: "TestData list"
  started_at :: "Instant option"
  finished_at :: "Instant option"

definition init :: "'env \<Rightarrow> 'env Payload" where
  "init env = \<lparr>run_env = env, data = [], started_at = None, finished_at = None\<rparr>"

definition push_test_data :: "'env Payload \<Rightarrow> TestData \<Rightarrow> 'env Payload" where
  "push_test_data self report = self\<lparr>data := data self @ [report]\<rparr>"

definition is_started :: "'env Payload \<Rightarrow> bool" where
  "is_started self = (started_at self \<noteq> None)"

definition started :: "Instant \<Rightarrow> 'env Payload \<Rightarrow> 'env Payload" where
  "started now self = self\<lparr>started_at := Some now\<rparr>"

text \<open>
  \<^verbatim>\<open>Payload.as_json\<close>: the result is the list of warnings handed to the logger, and the
  dict or the exception that ends the call. The warning is logged before the entries
  are encoded.
\<close>

definition unfinished_warning :: string where
  "unfinished_warning = ''Unexpected unfinished test data, skipping unfinished test records...''"

definition Payload_as_json ::
  "('env \<Rightarrow> json) \<Rightarrow> 'env Payload \<Rightarrow> string list \<times> (error + JsonDict)" where
  "Payload_as_json run_env_as_json self =
     (let finished_data = filter TestData_is_finished (data self);
          warnings = (if length finished_data < length (data self)
                      then [unfinished_warning] else [])
      in (warnings,
          and_then (map_result (\<lambda>td. TestData_as_json td (started_at self)) finished_data)
            (\<lambda>ds. Inr [(''format'', JStr ''json''),
                      (''run_env'', run_env_as_json (run_env self)),
                      (''data'', JList (map JDict ds))])))"

text \<open>
  Python slices \<^verbatim>\<open>data[0:n]\<close> and \<^verbatim>\<open>data[n:]\<close> for an integer \<open>n\<close>: a negative bound
  counts from the end and is clipped at the start of the sequence.
\<close>

definition slice_to :: "'a list \<Rightarrow> int \<Rightarrow> 'a list" where
  "slice_to xs n = (if 0 \<le> n then take (nat n) xs else take (nat (int (length xs) + n)) xs)"

definition slice_from :: "'a list \<Rightarrow> int \<Rightarrow> 'a list" where
  "slice_from xs n = (if 0 \<le> n then drop (nat n) xs else drop (nat (int (length xs) + n)) xs)"

text \<open>
  \<^verbatim>\<open>Payload.__into_batches\<close> calls itself once for every batch but the last, with no
  loop, and each call nests inside the one before. The interpreter allows only so many
  nested calls (CPython's recursion limit is 1000 frames unless it is reset, and the
  caller's own frames count): \<open>frames\<close> is the number of nested calls of
  \<^verbatim>\<open>__into_batches\<close> that the interpreter allows where the method is called, and the
  call that would exceed it raises \<^verbatim>\<open>RecursionError\<close>. For a batch size below one the
  base case is never reached with data left, and the recursion ends in that error
  whatever the allowance.

  The receiver is passed on from call to call and handed back with the batches: the
  second component of the result is the batches, the first is the receiver as it is
  when the call returns. The dataclass is frozen and the method assigns to no field;
  every batch is built by \<^verbatim>\<open>replace\<close>, a new instance.
\<close>

fun into_batches_rec ::
  "nat \<Rightarrow> 'env Payload \<Rightarrow> TestData list \<Rightarrow> 'env Payload list \<Rightarrow> int
     \<Rightarrow> error + ('env Payload \<times> 'env Payload list)" where
  "into_batches_rec 0 self dat batches batch_size = Inl RecursionError"
| "into_batches_rec (Suc frames) self dat batches batch_size =
     (if int (length dat) \<le> batch_size
      then Inr (self, batches @ [self\<lparr>data := dat\<rparr>])
      else into_batches_rec frames self (slice_from dat batch_size)
             (batches @ [self\<lparr>data := slice_to dat batch_size\<rparr>]) batch_size)"

definition into_batches :: "nat \<Rightarrow> 'env Payload \<Rightarrow> int \<Rightarrow> error + 'env Payload list" where
  "into_batches frames self batch_size =
     (case into_batches_rec frames self (data self) [] batch_size of
        Inl e \<Rightarrow> Inl e
      | Inr (self', batches) \<Rightarrow> Inr batches)"

text \<open>
  The partition as the specification words it: consecutive runs of \<open>n\<close> entries, the last
  run possibly shorter, and a single run when the whole sequence fits.
\<close>

function chunks :: "nat \<Rightarrow> 'a list \<Rightarrow> 'a list list" where
  "chunks n xs =
     (if length xs \<le> n \<or> n = 0 then [xs] else take n xs # chunks n (drop n xs))"
  by pat_completeness auto
termination
  by (relation "measure (\<lambda>(n, xs). length xs)") auto

declare chunks.simps [simp del]

text \<open>
  The number of batches for \<open>N\<close> entries and a batch size \<open>B\<close> of at least one: one batch
  when everything fits, \<open>\<lceil>N / B\<rceil>\<close> otherwise.
\<close>

definition batch_count :: "nat \<Rightarrow> int \<Rightarrow> int" where
  "batch_count N B = (if int N \<le> B then 1 else \<lceil>real N / real_of_int B\<rceil>)"

section \<open>The submitter\<close>

text \<open>
  Modelled from the spec: \<^verbatim>\<open>collector/api.py\<close> is absent (its tests are present). The
  submitter reads a credential token and an upload endpoint, with a default, from the
  environment view it is built from; the variable names and the default endpoint are
  those of the tests.
\<close>

record API =
  token :: "string option"
  api_url :: string

definition default_api_url :: string where
  "default_api_url = ''https://analytics-api.buildkite.com/v1''"

definition API_init :: "(string \<times> string option) list \<Rightarrow> API" where
  "API_init env =
     \<lparr>token = (case map_of env ''BUILDKITE_ANALYTICS_TOKEN'' of
                 Some (Some t) \<Rightarrow> Some t
               | _ \<Rightarrow> None),
      api_url = (case map_of env ''BUILDKITE_ANALYTICS_API_URL'' of
                   Some (Some u) \<Rightarrow> u
                 | _ \<Rightarrow> default_api_url)\<rparr>"

text \<open>
  Modelled from the spec: the credential counts as missing when none is configured or
  when it is empty or holds only whitespace.
\<close>

definition is_whitespace :: "char \<Rightarrow> bool" where
  "is_whitespace c = (c \<in> set [CHR '' '', CHR 0x09, CHR 0x0A, CHR 0x0B, CHR 0x0C, CHR 0x0D])"

definition credential :: "API \<Rightarrow> string option" where
  "credential api =
     (case token api of
        None \<Rightarrow> None
      | Some t \<Rightarrow> if list_all is_whitespace t then None else Some t)"

text \<open>
  Modelled from the spec: one POST per batch to \<^verbatim>\<open><endpoint>/uploads\<close>, carrying the
  credential and the serialised batch. The transport answers a request, given the
  requests issued before it, with a timeout (connection-level or read-level) or with a
  response.
\<close>

record request =
  url :: string
  authorization :: string
  body :: JsonDict

record response =
  status_code :: int
  response_json :: json

datatype timeout_kind = ConnectTimeout | ReadTimeout

fun timeout_name :: "timeout_kind \<Rightarrow> string" where
  "timeout_name ConnectTimeout = ''ConnectTimeout''"
| "timeout_name ReadTimeout = ''ReadTimeout''"

datatype outcome =
    TimedOut timeout_kind string
  | Responded response

type_synonym transport = "request list \<Rightarrow> request \<Rightarrow> outcome"

text \<open>
  Modelled from the spec: the warning for a timeout contains the exception's type name
  and its message.
\<close>

definition timeout_warning :: "timeout_kind \<Rightarrow> string \<Rightarrow> string" where
  "timeout_warning k msg = timeout_name k @ '': '' @ msg"

text \<open>
  The state of a submission: the outcomes yielded so far (one per batch, \<open>None\<close> for a
  batch without a result), the requests issued, the warnings logged, and the exception
  that ended the sequence, if one did.
\<close>

record submission =
  yielded :: "response option list"
  posts :: "request list"
  warnings :: "string list"
  raised :: "error option"

definition no_submission :: submission where
  "no_submission = \<lparr>yielded = [], posts = [], warnings = [], raised = None\<rparr>"

text \<open>
  Modelled from the spec: \<^verbatim>\<open>API.submit\<close>, rules 1 to 5 of its contract, batch by batch
  and in order. The sequence is lazy in the source; the model is the sequence consumed
  to its end. An exception of the serialiser or of \<^verbatim>\<open>into_batches\<close> is not caught and
  ends the sequence.
\<close>

fun submit_batches ::
  "('env \<Rightarrow> json) \<Rightarrow> API \<Rightarrow> transport \<Rightarrow> 'env Payload list \<Rightarrow> submission \<Rightarrow> submission" where
  "submit_batches enc api net [] st = st"
| "submit_batches enc api net (batch # rest) st =
     (case credential api of
        None \<Rightarrow> submit_batches enc api net rest (st\<lparr>yielded := yielded st @ [None]\<rparr>)
      | Some tok \<Rightarrow>
          (case Payload_as_json enc batch of
             (ws, Inl e) \<Rightarrow> st\<lparr>warnings := warnings st @ ws, raised := Some e\<rparr>
           | (ws, Inr js) \<Rightarrow>
               (let req = \<lparr>url = api_url api @ ''/uploads'', authorization = tok, body = js\<rparr>;
                    st1 = st\<lparr>posts := posts st @ [req], warnings := warnings st @ ws\<rparr>
                in (case net (posts st) req of
                      TimedOut k msg \<Rightarrow>
                        submit_batches enc api net rest
                          (st1\<lparr>yielded := yielded st1 @ [None],
                               warnings := warnings st1 @ [timeout_warning k msg]\<rparr>)
                    | Responded r \<Rightarrow>
                        (if 200 \<le> status_code r \<and> status_code r < 300
                         then submit_batches enc api net rest
                                (st1\<lparr>yielded := yielded st1 @ [Some r]\<rparr>)
                         else submit_batches enc api net rest
                                (st1\<lparr>yielded := yielded st1 @ [None]\<rparr>))))))"

definition submit ::
  "nat \<Rightarrow> ('env \<Rightarrow> json) \<Rightarrow> API \<Rightarrow> transport \<Rightarrow> 'env Payload \<Rightarrow> int \<Rightarrow> submission" where
  "submit frames enc api net payload batch_size =
     (case into_batches frames payload batch_size of
        Inl e \<Rightarrow> no_submission\<lparr>raised := Some e\<rparr>
      | Inr batches \<Rightarrow> submit_batches enc api net batches no_submission)"

section \<open>Sample values\<close>

text \<open>
  Test executions and payloads in the shape of the fixtures of the test suite: a
  finished passing test with one span, a finished failing test, a test that was started
  and never finished, and a test whose history carries no start.
\<close>

definition sql_span :: TestSpan where
  "sql_span = \<lparr>span_section = Sql, span_duration = 500000,
               span_start_at = Some 1200000, span_end_at = Some 1700000,
               detail = None\<rparr>"

definition successful_test :: TestData where
  "successful_test =
     \<lparr>td_id = ''6a1c4f0e'', scope = ''suite'', name = ''passes'',
      history = \<lparr>start_at = Some 1000000, end_at = Some 3500000,
                 duration = Some 2500000, children = PyTuple [sql_span]\<rparr>,
      location = Some ''test_a.py:3'', file_name = None,
      tags = [(''team'', ''core'')], result = Some TestResultPassed\<rparr>"

definition failed_test :: TestData where
  "failed_test =
     \<lparr>td_id = ''0b7d22c9'', scope = ''suite'', name = ''fails'',
      history = \<lparr>start_at = Some 4000000, end_at = Some 4250000,
                 duration = Some 250000, children = PyTuple []\<rparr>,
      location = None, file_name = Some ''test_b.py'',
      tags = [], result = Some (TestResultFailed (Some ''bitter sadness'') None)\<rparr>"

definition unfinished_test :: TestData where
  "unfinished_test = TestData_start 5000000 ''f3e91d57'' ''suite'' ''hangs'' None None"

definition unstarted_test :: TestData where
  "unstarted_test =
     \<lparr>td_id = ''c2d4e6f8'', scope = ''suite'', name = ''bare'',
      history = \<lparr>start_at = None, end_at = None, duration = None, children = PyTuple []\<rparr>,
      location = None, file_name = None, tags = [], result = None\<rparr>"

definition ci_env :: JsonDict where
  "ci_env = [(''CI'', JStr ''true'')]"

definition suite_payload :: "JsonDict Payload" where
  "suite_payload =
     push_test_data (push_test_data (started 900000 (init ci_env)) successful_test) failed_test"

definition mixed_payload :: "JsonDict Payload" where
  "mixed_payload =
     push_test_data (push_test_data (started 900000 (init ci_env)) successful_test)
       unfinished_test"

definition unstarted_payload :: "JsonDict Payload" where
  "unstarted_payload = push_test_data (init ci_env) successful_test"

definition five_payload :: "JsonDict Payload" where
  "five_payload =
     (started 900000 (init ci_env))
       \<lparr>data := [successful_test, failed_test, unfinished_test, failed_test, successful_test]\<rparr>"

text \<open>
  Payloads of 1001 and of 2001 entries, and a history whose spans are held in a list.
\<close>

definition long_payload :: "JsonDict Payload" where
  "long_payload = (started 900000 (init ci_env))\<lparr>data := replicate 1001 successful_test\<rparr>"

definition longer_payload :: "JsonDict Payload" where
  "longer_payload = (started 900000 (init ci_env))\<lparr>data := replicate 2001 failed_test\<rparr>"


definition accepted :: response where
  "accepted = \<lparr>status_code = 202, response_json = JDict [(''queued'', JNum 1)]\<rparr>"

text \<open>A transport whose first request times out and whose later requests are accepted.\<close>

definition flaky_transport :: transport where
  "flaky_transport earlier req =
     (if earlier = [] then TimedOut ConnectTimeout ''Error'' else Responded accepted)"

definition keyed_api :: API where
  "keyed_api = API_init [(''CI'', Some ''true''), (''BUILDKITE_ANALYTICS_TOKEN'', Some ''s3cr3t'')]"


section \<open>The wire format, spelled out\<close>

text \<open>
  The dicts that the serialisers build when a run start is given, written as lists of
  entries: a second definition of each encoding, against which the functions above are
  proved.
\<close>

definition span_attrs :: "TestSpan \<Rightarrow> Instant \<Rightarrow> JsonDict" where
  "span_attrs s r =
     [(''section'', JStr (section_str (span_section s))),
      (''duration'', JNum (total_seconds (span_duration s)))]
     @ (case detail s of None \<Rightarrow> [] | Some d \<Rightarrow> [(''detail'', JStr d)])
     @ (case span_start_at s of None \<Rightarrow> []
        | Some a \<Rightarrow> [(''start_at'', JNum (total_seconds (a - r)))])
     @ (case span_end_at s of None \<Rightarrow> []
        | Some a \<Rightarrow> [(''end_at'', JNum (total_seconds (a - r)))])"

definition history_attrs :: "TestHistory \<Rightarrow> Instant \<Rightarrow> JsonDict" where
  "history_attrs h r =
     [(''section'', JStr ''top''),
      (''children'', JList (map (\<lambda>s. JDict (span_attrs s r)) (items (children h))))]
     @ (case start_at h of None \<Rightarrow> []
        | Some a \<Rightarrow> [(''start_at'', JNum (total_seconds (a - r)))])
     @ (case end_at h of None \<Rightarrow> []
        | Some a \<Rightarrow> [(''end_at'', JNum (total_seconds (a - r)))])
     @ (case duration h of None \<Rightarrow> []
        | Some d \<Rightarrow> [(''duration'', JNum (total_seconds d))])"

definition identity_attrs :: "TestData \<Rightarrow> Instant \<Rightarrow> JsonDict" where
  "identity_attrs t r =
     [(''id'', JStr (td_id t)),
      (''scope'', JStr (scope t)),
      (''name'', JStr (name t)),
      (''location'', opt_str_json (location t)),
      (''file_name'', opt_str_json (file_name t)),
      (''history'', JDict (history_attrs (history t) r))]
     @ (if tags t = [] then [] else [(''tags'', tags_json (tags t))])"

definition payload_attrs :: "('env \<Rightarrow> json) \<Rightarrow> 'env Payload \<Rightarrow> Instant \<Rightarrow> JsonDict" where
  "payload_attrs enc p r =
     [(''format'', JStr ''json''),
      (''run_env'', enc (run_env p)),
      (''data'', JList (map (\<lambda>td. JDict (result_attrs (result td) (identity_attrs td r)))
                          (filter TestData_is_finished (data p))))]"

definition payload_warnings :: "'env Payload \<Rightarrow> string list" where
  "payload_warnings p =
     (if length (filter TestData_is_finished (data p)) < length (data p)
      then [unfinished_warning] else [])"

section \<open>Batching\<close>

lemma concat_chunks: "concat (chunks n xs) = xs"
proof (induction n xs rule: chunks.induct)
  case (1 n xs)
  show ?case
  proof (cases "length xs \<le> n \<or> n = 0")
    case True
    then show ?thesis by (subst chunks.simps) simp
  next
    case False
    with "1" have "concat (chunks n (drop n xs)) = drop n xs" by simp
    with False show ?thesis by (subst chunks.simps) simp
  qed
qed

lemma length_chunk_le: "0 < n \<Longrightarrow> c \<in> set (chunks n xs) \<Longrightarrow> length c \<le> n"
proof (induction n xs rule: chunks.induct)
  case (1 n xs)
  show ?case
  proof (cases "length xs \<le> n \<or> n = 0")
    case True
    with "1.prems" show ?thesis by (subst (asm) chunks.simps) auto
  next
    case False
    from "1.prems"(2) False have "c = take n xs \<or> c \<in> set (chunks n (drop n xs))"
      by (subst (asm) chunks.simps) auto
    then show ?thesis
    proof
      assume "c = take n xs" then show ?thesis by simp
    next
      assume "c \<in> set (chunks n (drop n xs))"
      with "1.IH" False "1.prems"(1) show ?thesis by simp
    qed
  qed
qed

lemma length_butlast_chunk: "c \<in> set (butlast (chunks n xs)) \<Longrightarrow> length c = n"
proof (induction n xs rule: chunks.induct)
  case (1 n xs)
  show ?case
  proof (cases "length xs \<le> n \<or> n = 0")
    case True
    with "1.prems" show ?thesis by (subst (asm) chunks.simps) auto
  next
    case False
    have ne: "chunks n (drop n xs) \<noteq> []" by (subst chunks.simps) simp
    from "1.prems" False ne have "c = take n xs \<or> c \<in> set (butlast (chunks n (drop n xs)))"
      by (subst (asm) chunks.simps) auto
    then show ?thesis
    proof
      assume "c = take n xs" with False show ?thesis by simp
    next
      assume "c \<in> set (butlast (chunks n (drop n xs)))"
      with "1.IH" False show ?thesis by simp
    qed
  qed
qed

lemma length_chunks:
  "0 < n \<Longrightarrow> length (chunks n xs) = (if length xs \<le> n then 1 else (length xs + n - 1) div n)"
proof (induction n xs rule: chunks.induct)
  case (1 n xs)
  show ?case
  proof (cases "length xs \<le> n \<or> n = 0")
    case True
    with "1.prems" show ?thesis by (subst chunks.simps) auto
  next
    case False
    then have gt: "n < length xs" and n0: "0 < n" by auto
    have IH: "length (chunks n (drop n xs)) =
        (if length (drop n xs) \<le> n then 1 else (length (drop n xs) + n - 1) div n)"
      using "1.IH" False n0 by simp
    have step: "length (chunks n xs) = Suc (length (chunks n (drop n xs)))"
      using False by (subst chunks.simps) simp
    obtain m where m: "length xs = n + m" and mpos: "0 < m"
      using gt by (metis less_imp_add_positive)
    have d: "length (drop n xs) = m" using m by simp
    have a: "(n + m + n - 1) div n = Suc ((m + n - 1) div n)"
    proof -
      have "n + m + n - 1 = (m + n - 1) + n" using n0 by simp
      then have "(n + m + n - 1) div n = ((m + n - 1) + n) div n" by (rule arg_cong)
      also have "\<dots> = (m + n - 1) div n + 1" using n0 by (subst div_add_self2) simp_all
      finally show ?thesis by simp
    qed
    have b: "m \<le> n \<Longrightarrow> (m + n - 1) div n = 1"
    proof -
      assume le: "m \<le> n"
      have e: "m + n - 1 = (m - 1) + n" using mpos by simp
      have l: "m - 1 < n" using le mpos by simp
      have "(m + n - 1) div n = ((m - 1) + n) div n" using e by (rule arg_cong)
      also have "\<dots> = (m - 1) div n + 1" using n0 by (subst div_add_self2) simp_all
      also have "\<dots> = 1" using l by simp
      finally show ?thesis .
    qed
    show ?thesis using step IH d m a b gt by (auto simp: not_le)
  qed
qed

lemma ceiling_div_nat:
  assumes "0 < n"
  shows "\<lceil>real m / real n\<rceil> = int ((m + n - 1) div n)"
proof -
  let ?q = "(m + n - 1) div n"
  have lo: "m \<le> ?q * n"
  proof -
    have "m + n - 1 < ?q * n + n"
      using assms by (metis add.commute dividend_less_times_div mult.commute)
    then show ?thesis by simp
  qed
  have hi: "?q * n < m + n"
  proof -
    have "?q * n \<le> m + n - 1" by simp
    moreover have "m + n - 1 < m + n" using assms by simp
    ultimately show ?thesis by (rule le_less_trans)
  qed
  have 1: "real m / real n \<le> real ?q"
    using lo assms by (simp add: pos_divide_le_eq flip: of_nat_mult)
  have 2: "real ?q - 1 < real m / real n"
  proof -
    have "real (?q * n) < real (m + n)" using hi by (simp only: of_nat_less_iff)
    then have "(real ?q - 1) * real n < real m" by (simp add: algebra_simps)
    then show ?thesis using assms by (simp add: pos_less_divide_eq)
  qed
  show ?thesis using 1 2 by (intro ceiling_unique) simp_all
qed


lemma chunks_nonempty: "chunks n xs \<noteq> []"
  by (subst chunks.simps) simp

lemma chunks_count:
  assumes "0 < n"
  shows "int (length (chunks n xs)) = batch_count (length xs) (int n)"
proof (cases "length xs \<le> n")
  case True
  then show ?thesis using assms by (simp add: length_chunks batch_count_def)
next
  case False
  then have "int (length (chunks n xs)) = int ((length xs + n - 1) div n)"
    using assms by (simp add: length_chunks)
  also have "\<dots> = \<lceil>real (length xs) / real n\<rceil>"
    by (rule ceiling_div_nat [OF assms, symmetric])
  finally show ?thesis using False by (simp add: batch_count_def)
qed

lemma into_batches_rec_chunks:
  "1 \<le> b \<Longrightarrow> into_batches_rec frames self dat batches b =
     (if length (chunks (nat b) dat) \<le> frames
      then Inr (self, batches @ map (\<lambda>c. self\<lparr>data := c\<rparr>) (chunks (nat b) dat))
      else Inl RecursionError)"
proof (induction frames arbitrary: dat batches)
  case 0
  have "chunks (nat b) dat \<noteq> []" by (rule chunks_nonempty)
  then show ?case by simp
next
  case (Suc frames)
  show ?case
  proof (cases "int (length dat) \<le> b")
    case True
    then have "length dat \<le> nat b" by linarith
    then have "chunks (nat b) dat = [dat]" by (subst chunks.simps) simp
    with True show ?thesis by simp
  next
    case False
    have nle: "\<not> length dat \<le> nat b" and nz: "nat b \<noteq> 0"
      using False Suc.prems by linarith+
    have c: "chunks (nat b) dat = take (nat b) dat # chunks (nat b) (drop (nat b) dat)"
      using nle nz by (subst chunks.simps) simp
    have s: "slice_from dat b = drop (nat b) dat" "slice_to dat b = take (nat b) dat"
      using Suc.prems by (simp_all add: slice_from_def slice_to_def)
    have "into_batches_rec (Suc frames) self dat batches b =
        into_batches_rec frames self (drop (nat b) dat)
          (batches @ [self\<lparr>data := take (nat b) dat\<rparr>]) b"
      using False by (simp add: s)
    also have "\<dots> =
        (if length (chunks (nat b) (drop (nat b) dat)) \<le> frames
         then Inr (self, (batches @ [self\<lparr>data := take (nat b) dat\<rparr>])
                @ map (\<lambda>c. self\<lparr>data := c\<rparr>) (chunks (nat b) (drop (nat b) dat)))
         else Inl RecursionError)"
      by (rule Suc.IH [OF Suc.prems])
    finally show ?thesis by (simp add: c)
  qed
qed

lemma into_batches_chunks:
  assumes "1 \<le> b"
  shows "into_batches frames p b =
     (if batch_count (length (data p)) b \<le> int frames
      then Inr (map (\<lambda>c. p\<lparr>data := c\<rparr>) (chunks (nat b) (data p)))
      else Inl RecursionError)"
proof -
  have n: "0 < nat b" using assms by simp
  have "int (length (chunks (nat b) (data p))) = batch_count (length (data p)) (int (nat b))"
    by (rule chunks_count [OF n])
  also have "int (nat b) = b" using assms by simp
  finally have "length (chunks (nat b) (data p)) \<le> frames
      \<longleftrightarrow> batch_count (length (data p)) b \<le> int frames"
    by linarith
  then show ?thesis
    by (simp add: into_batches_def into_batches_rec_chunks [OF assms])
qed

lemma into_batches_rec_receiver:
  assumes "1 \<le> b" and "into_batches frames p b = Inr bs"
  shows "into_batches_rec frames p (data p) [] b = Inr (p, bs)"
  using assms
  by (simp add: into_batches_def into_batches_rec_chunks [OF assms(1)] split: if_splits)




lemma five_payload_batches:
  "into_batches 1000 five_payload 2 =
     Inr [five_payload\<lparr>data := [successful_test, failed_test]\<rparr>,
          five_payload\<lparr>data := [unfinished_test, failed_test]\<rparr>,
          five_payload\<lparr>data := [successful_test]\<rparr>]"
proof -
  have c: "chunks 2 (data five_payload) =
      [[successful_test, failed_test], [unfinished_test, failed_test], [successful_test]]"
    by (simp add: chunks.simps five_payload_def)
  have "batch_count (length (data five_payload)) 2 = 3"
    by (simp add: batch_count_def five_payload_def)
  then show ?thesis
    using c by (simp add: into_batches_chunks)
qed

lemma batch_count_long: "batch_count (length (data long_payload)) 1 = 1001"
  by (simp add: batch_count_def long_payload_def)

lemma batch_count_longer: "batch_count (length (data longer_payload)) 2 = 1001"
proof -
  have "\<lceil>(2001::real) / 2\<rceil> = 1001" by linarith
  then show ?thesis by (simp add: batch_count_def longer_payload_def)
qed

text \<open>
  Claim C1, amended. For every payload and every batch size of at least one whose
  batches (one when everything fits, \<open>\<lceil>N / B\<rceil>\<close> otherwise) do not outnumber the nested
  calls the interpreter allows, \<^verbatim>\<open>into_batches\<close> returns, the data of the returned
  batches, concatenated in order, are the data of the payload, element for element, and
  no batch holds more entries than the batch size. With more batches than that the
  call raises \<^verbatim>\<open>RecursionError\<close>.
\<close>

theorem into_batches_concat_bounded:
  assumes "1 \<le> b"
  shows "(batch_count (length (data p)) b \<le> int frames \<longrightarrow>
            (\<exists>bs. into_batches frames p b = Inr bs
               \<and> concat (map data bs) = data p
               \<and> (\<forall>x \<in> set bs. int (length (data x)) \<le> b)))
       \<and> (int frames < batch_count (length (data p)) b \<longrightarrow>
            into_batches frames p b = Inl RecursionError)"
proof (intro conjI impI)
  assume fit: "batch_count (length (data p)) b \<le> int frames"
  let ?cs = "chunks (nat b) (data p)"
  let ?bs = "map (\<lambda>c. p\<lparr>data := c\<rparr>) ?cs"
  have n: "0 < nat b" using assms by simp
  have 1: "into_batches frames p b = Inr ?bs"
    using fit by (simp add: into_batches_chunks [OF assms])
  have "map data ?bs = ?cs" by (simp add: comp_def)
  then have 2: "concat (map data ?bs) = data p" by (simp only: concat_chunks)
  have 3: "\<forall>x \<in> set ?bs. int (length (data x)) \<le> b"
  proof
    fix x assume "x \<in> set ?bs"
    then obtain c where c: "c \<in> set ?cs" and x: "x = p\<lparr>data := c\<rparr>" by auto
    from length_chunk_le [OF n c] have "length c \<le> nat b" .
    with x assms show "int (length (data x)) \<le> b" by simp
  qed
  show "\<exists>bs. into_batches frames p b = Inr bs
               \<and> concat (map data bs) = data p
               \<and> (\<forall>x \<in> set bs. int (length (data x)) \<le> b)"
    by (rule exI [where x = ?bs], intro conjI) (rule 1 2 3)+
next
  assume "int frames < batch_count (length (data p)) b"
  then show "into_batches frames p b = Inl RecursionError"
    by (simp add: into_batches_chunks [OF assms])
qed

theorem into_batches_concat_bounded_witness:
  "(1::int) \<le> 2
   \<and> batch_count (length (data five_payload)) 2 = 3
   \<and> into_batches 1000 five_payload 2 =
       Inr [five_payload\<lparr>data := [successful_test, failed_test]\<rparr>,
            five_payload\<lparr>data := [unfinished_test, failed_test]\<rparr>,
            five_payload\<lparr>data := [successful_test]\<rparr>]
   \<and> concat (map data [five_payload\<lparr>data := [successful_test, failed_test]\<rparr>,
                        five_payload\<lparr>data := [unfinished_test, failed_test]\<rparr>,
                        five_payload\<lparr>data := [successful_test]\<rparr>])
       = data five_payload
   \<and> int (length (data (five_payload\<lparr>data := [successful_test, failed_test]\<rparr>))) \<le> 2
   \<and> int (length (data (five_payload\<lparr>data := [successful_test]\<rparr>))) \<le> 2
   \<and> into_batches 2 five_payload 2 = Inl RecursionError"
proof -
  have c: "(1::int) \<le> 2" by simp
  have k: "batch_count (length (data five_payload)) 2 = 3"
    by (simp add: batch_count_def five_payload_def)
  note inst = into_batches_concat_bounded [OF c, of five_payload]
  from inst [of 1000, THEN conjunct1] k
  obtain bs where bs: "into_batches 1000 five_payload 2 = Inr bs"
    and cc: "concat (map data bs) = data five_payload"
    and le: "\<forall>x \<in> set bs. int (length (data x)) \<le> 2" by auto
  from bs have e: "bs = [five_payload\<lparr>data := [successful_test, failed_test]\<rparr>,
             five_payload\<lparr>data := [unfinished_test, failed_test]\<rparr>,
             five_payload\<lparr>data := [successful_test]\<rparr>]"
    by (simp add: five_payload_batches)
  from le have l: "int (length (data (five_payload\<lparr>data := [successful_test, failed_test]\<rparr>))) \<le> 2"
    "int (length (data (five_payload\<lparr>data := [successful_test]\<rparr>))) \<le> 2"
    unfolding e by simp_all
  from inst [of 2, THEN conjunct2] k
  have r: "into_batches 2 five_payload 2 = Inl RecursionError" by simp
  from c k cc l r five_payload_batches show ?thesis unfolding e by blast
qed

text \<open>
  The claim C1 as it was stated, for every payload, fails on a payload of 1001 entries
  at batch size one: a thousand nested calls, the most the default limit can allow,
  do not reach the last batch.
\<close>

theorem into_batches_recursion_counterexample:
  "(1::int) \<le> 1
   \<and> length (data long_payload) = 1001
   \<and> into_batches 1000 long_payload 1 = Inl RecursionError"
proof -
  have "into_batches 1000 long_payload 1 = Inl RecursionError"
    using batch_count_long by (simp add: into_batches_chunks)
  then show ?thesis by (simp add: long_payload_def)
qed

text \<open>
  Claim C2, amended. For a payload of \<open>N\<close> entries and a batch size \<open>B\<close> of at least one
  whose batches do not outnumber the nested calls the interpreter allows,
  \<^verbatim>\<open>into_batches\<close> returns \<open>\<lceil>N / B\<rceil>\<close> batches when \<open>N\<close> is positive, and the single
  batch that equals the payload (empty when \<open>N = 0\<close>) when \<open>N \<le> B\<close>. Every batch but the
  last holds exactly \<open>B\<close> entries and the last at most \<open>B\<close>; every batch has the
  \<^verbatim>\<open>run_env\<close>, \<^verbatim>\<open>started_at\<close> and \<^verbatim>\<open>finished_at\<close> of the payload; and the receiver, as
  it is when the call returns, is the payload as it was. With more batches than the
  interpreter allows nested calls, the call raises \<^verbatim>\<open>RecursionError\<close>.
\<close>

theorem into_batches_count:
  assumes "1 \<le> b"
  shows "(batch_count (length (data p)) b \<le> int frames \<longrightarrow>
            (\<exists>bs. into_batches frames p b = Inr bs
               \<and> into_batches_rec frames p (data p) [] b = Inr (p, bs)
               \<and> (0 < length (data p) \<longrightarrow>
                    int (length bs) = \<lceil>real (length (data p)) / real_of_int b\<rceil>)
               \<and> (int (length (data p)) \<le> b \<longrightarrow> bs = [p])
               \<and> (\<forall>x \<in> set (butlast bs). int (length (data x)) = b)
               \<and> int (length (data (last bs))) \<le> b
               \<and> (\<forall>x \<in> set bs. run_env x = run_env p \<and> started_at x = started_at p
                                    \<and> finished_at x = finished_at p)))
       \<and> (int frames < batch_count (length (data p)) b \<longrightarrow>
            into_batches frames p b = Inl RecursionError)"
proof (intro conjI impI)
  assume fit: "batch_count (length (data p)) b \<le> int frames"
  let ?n = "nat b"
  let ?N = "length (data p)"
  let ?cs = "chunks ?n (data p)"
  let ?bs = "map (\<lambda>c. p\<lparr>data := c\<rparr>) ?cs"
  have n: "0 < ?n" using assms by simp
  have nb: "int ?n = b" using assms by simp
  have ne: "?cs \<noteq> []" by (rule chunks_nonempty)
  have 1: "into_batches frames p b = Inr ?bs"
    using fit by (simp add: into_batches_chunks [OF assms])
  have 0: "into_batches_rec frames p (data p) [] b = Inr (p, ?bs)"
    using assms 1 by (rule into_batches_rec_receiver)
  have cnt: "int (length ?bs) = batch_count ?N b"
    using chunks_count [OF n, of "data p"] nb by simp
  have 2: "0 < ?N \<longrightarrow> int (length ?bs) = \<lceil>real ?N / real_of_int b\<rceil>"
  proof
    assume pos: "0 < ?N"
    show "int (length ?bs) = \<lceil>real ?N / real_of_int b\<rceil>"
    proof (cases "int ?N \<le> b")
      case True
      have "0 < real ?N / real_of_int b" using pos assms by simp
      moreover have "real ?N / real_of_int b \<le> 1" using True assms by simp
      ultimately have "\<lceil>real ?N / real_of_int b\<rceil> = 1" by linarith
      with True cnt show ?thesis by (simp add: batch_count_def)
    next
      case False
      with cnt show ?thesis by (simp add: batch_count_def)
    qed
  qed
  have 3: "int ?N \<le> b \<longrightarrow> ?bs = [p]"
  proof
    assume "int ?N \<le> b"
    then have "?N \<le> ?n" by linarith
    then have "?cs = [data p]" by (subst chunks.simps) simp
    then show "?bs = [p]" by simp
  qed
  have 4: "\<forall>x \<in> set (butlast ?bs). int (length (data x)) = b"
  proof
    fix x assume "x \<in> set (butlast ?bs)"
    then have "x \<in> set (map (\<lambda>c. p\<lparr>data := c\<rparr>) (butlast ?cs))" by (simp only: map_butlast)
    then obtain c where c: "c \<in> set (butlast ?cs)" and x: "x = p\<lparr>data := c\<rparr>" by auto
    from length_butlast_chunk [OF c] x assms show "int (length (data x)) = b" by simp
  qed
  have 5: "int (length (data (last ?bs))) \<le> b"
  proof -
    have "last ?bs = p\<lparr>data := last ?cs\<rparr>" using ne by (simp add: last_map)
    moreover have "last ?cs \<in> set ?cs" using ne by simp
    then have "length (last ?cs) \<le> ?n" by (rule length_chunk_le [OF n])
    ultimately show ?thesis using assms by simp
  qed
  have 6: "\<forall>x \<in> set ?bs. run_env x = run_env p \<and> started_at x = started_at p
                                \<and> finished_at x = finished_at p"
    by auto
  show "\<exists>bs. into_batches frames p b = Inr bs
               \<and> into_batches_rec frames p (data p) [] b = Inr (p, bs)
               \<and> (0 < length (data p) \<longrightarrow>
                    int (length bs) = \<lceil>real (length (data p)) / real_of_int b\<rceil>)
               \<and> (int (length (data p)) \<le> b \<longrightarrow> bs = [p])
               \<and> (\<forall>x \<in> set (butlast bs). int (length (data x)) = b)
               \<and> int (length (data (last bs))) \<le> b
               \<and> (\<forall>x \<in> set bs. run_env x = run_env p \<and> started_at x = started_at p
                                    \<and> finished_at x = finished_at p)"
    by (rule exI [where x = ?bs], intro conjI) (rule 0 1 2 3 4 5 6)+
next
  assume "int frames < batch_count (length (data p)) b"
  then show "into_batches frames p b = Inl RecursionError"
    by (simp add: into_batches_chunks [OF assms])
qed

theorem into_batches_count_witness:
  "(1::int) \<le> 2
   \<and> length (data five_payload) = 5
   \<and> batch_count (length (data five_payload)) 2 = 3
   \<and> into_batches 1000 five_payload 2 =
       Inr [five_payload\<lparr>data := [successful_test, failed_test]\<rparr>,
            five_payload\<lparr>data := [unfinished_test, failed_test]\<rparr>,
            five_payload\<lparr>data := [successful_test]\<rparr>]
   \<and> into_batches_rec 1000 five_payload (data five_payload) [] 2 =
       Inr (five_payload,
            [five_payload\<lparr>data := [successful_test, failed_test]\<rparr>,
             five_payload\<lparr>data := [unfinished_test, failed_test]\<rparr>,
             five_payload\<lparr>data := [successful_test]\<rparr>])
   \<and> \<lceil>real (length (data five_payload)) / real_of_int 2\<rceil> = 3
   \<and> length (data suite_payload) = 2
   \<and> into_batches 1000 suite_payload 2 = Inr [suite_payload]
   \<and> into_batches 2 five_payload 2 = Inl RecursionError"
proof -
  have c: "(1::int) \<le> 2" by simp
  have n: "length (data five_payload) = 5" by (simp add: five_payload_def)
  have k: "batch_count (length (data five_payload)) 2 = 3"
    by (simp add: batch_count_def five_payload_def)
  have m: "length (data suite_payload) = 2"
    by (simp add: suite_payload_def push_test_data_def started_def init_def)
  have k': "batch_count (length (data suite_payload)) 2 = 1"
    by (simp add: batch_count_def m)
  note inst = into_batches_count [OF c]
  from inst [of five_payload 1000, THEN conjunct1] k
  obtain bs where bs: "into_batches 1000 five_payload 2 = Inr bs"
    and rc: "into_batches_rec 1000 five_payload (data five_payload) [] 2 = Inr (five_payload, bs)"
    and len: "0 < length (data five_payload) \<longrightarrow>
        int (length bs) = \<lceil>real (length (data five_payload)) / real_of_int 2\<rceil>"
    by auto
  from bs have e: "bs = [five_payload\<lparr>data := [successful_test, failed_test]\<rparr>,
             five_payload\<lparr>data := [unfinished_test, failed_test]\<rparr>,
             five_payload\<lparr>data := [successful_test]\<rparr>]"
    by (simp add: five_payload_batches)
  from len n have l: "\<lceil>real (length (data five_payload)) / real_of_int 2\<rceil> = 3"
    unfolding e by simp
  from inst [of suite_payload 1000, THEN conjunct1] k'
  obtain bs' where bs': "into_batches 1000 suite_payload 2 = Inr bs'"
    and one: "int (length (data suite_payload)) \<le> 2 \<longrightarrow> bs' = [suite_payload]"
    by auto
  from one m have "bs' = [suite_payload]" by simp
  with bs' have s: "into_batches 1000 suite_payload 2 = Inr [suite_payload]" by simp
  from inst [of five_payload 2, THEN conjunct2] k
  have r: "into_batches 2 five_payload 2 = Inl RecursionError" by simp
  from c n k five_payload_batches rc l m s r show ?thesis unfolding e by blast
qed

text \<open>
  The claim C2 as it was stated, for every payload, fails on a payload of 2001 entries
  at batch size two: the 1001 batches are not returned.
\<close>

theorem into_batches_count_recursion_counterexample:
  "(1::int) \<le> 2
   \<and> length (data longer_payload) = 2001
   \<and> into_batches 1000 longer_payload 2 = Inl RecursionError"
proof -
  have "into_batches 1000 longer_payload 2 = Inl RecursionError"
    using batch_count_longer by (simp add: into_batches_chunks)
  then show ?thesis by (simp add: longer_payload_def)
qed

section \<open>Serialisation\<close>

lemma and_then_Inr [simp]: "and_then (Inr x) f = f x"
  by (simp add: and_then_def)

lemma and_then_Inl [simp]: "and_then (Inl e) f = Inl e"
  by (simp add: and_then_def)

lemma instant_sub_Some [simp]: "instant_sub a (Some r) = Inr (a - r)"
  by (simp add: instant_sub_def)

lemma instant_sub_None [simp]: "instant_sub a None = Inl NoneOperandError"
  by (simp add: instant_sub_def)

lemma map_result_all_Inr:
  "(\<And>x. x \<in> set xs \<Longrightarrow> f x = Inr (g x)) \<Longrightarrow> map_result f xs = Inr (map g xs)"
  by (induction xs) simp_all

lemma TestSpan_as_json_Some: "TestSpan_as_json s (Some r) = Inr (span_attrs s r)"
  by (simp add: TestSpan_as_json_def span_attrs_def Let_def split: option.split)

text \<open>
  Claim C6. For every span and every run start \<open>r\<close>, \<^verbatim>\<open>as_json(r)\<close> returns a dict
  in which \<^verbatim>\<open>start_at\<close> and \<^verbatim>\<open>end_at\<close>, when the span has them, are the seconds elapsed
  since \<open>r\<close> (the difference to \<open>r\<close>, never the instant itself) and are absent otherwise;
  \<^verbatim>\<open>detail\<close> is absent when the span has none; \<^verbatim>\<open>section\<close> and \<^verbatim>\<open>duration\<close> (in
  seconds) are always present; there is no other key.
\<close>

theorem TestSpan_as_json_offsets:
  "\<exists>attrs. TestSpan_as_json s (Some r) = Inr attrs
     \<and> map_of attrs ''section'' = Some (JStr (section_str (span_section s)))
     \<and> map_of attrs ''duration'' = Some (JNum (total_seconds (span_duration s)))
     \<and> map_of attrs ''start_at''
         = map_option (\<lambda>a. JNum (total_seconds (a - r))) (span_start_at s)
     \<and> map_of attrs ''end_at''
         = map_option (\<lambda>a. JNum (total_seconds (a - r))) (span_end_at s)
     \<and> map_of attrs ''detail'' = map_option JStr (detail s)
     \<and> fst ` set attrs \<subseteq> {''section'', ''duration'', ''detail'', ''start_at'', ''end_at''}"
  by (simp add: TestSpan_as_json_Some span_attrs_def split: option.split)

theorem TestSpan_as_json_offsets_witness:
  "\<exists>attrs. TestSpan_as_json sql_span (Some 900000) = Inr attrs
     \<and> map_of attrs ''section'' = Some (JStr ''sql'')
     \<and> map_of attrs ''duration'' = Some (JNum (1 / 2))
     \<and> map_of attrs ''start_at'' = Some (JNum (3 / 10))
     \<and> map_of attrs ''end_at'' = Some (JNum (4 / 5))
     \<and> map_of attrs ''detail'' = None"
  using TestSpan_as_json_offsets [of sql_span 900000]
  by (auto simp: sql_span_def total_seconds_def)

lemma TestHistory_as_json_Some: "TestHistory_as_json h (Some r) = Inr (history_attrs h r)"
proof -
  have "map_result (\<lambda>sp. TestSpan_as_json sp (Some r)) (items (children h))
          = Inr (map (\<lambda>s. span_attrs s r) (items (children h)))"
    by (rule map_result_all_Inr) (rule TestSpan_as_json_Some)
  then show ?thesis
    by (simp add: TestHistory_as_json_def history_attrs_def Let_def comp_def
        split: option.split)
qed

lemma TestData_as_json_Some:
  "TestData_as_json t (Some r) = Inr (result_attrs (result t) (identity_attrs t r))"
  by (simp add: TestData_as_json_def TestHistory_as_json_Some identity_attrs_def Let_def)

lemma map_of_result_attrs:
  "map_of (result_attrs res attrs) k =
     (if k = ''result'' then
        (case res of None \<Rightarrow> map_of attrs k
         | Some TestResultPassed \<Rightarrow> Some (JStr ''passed'')
         | Some (TestResultFailed fr fe) \<Rightarrow> Some (JStr ''failed'')
         | Some TestResultSkipped \<Rightarrow> Some (JStr ''skipped''))
      else if k = ''failure_reason'' then
        (case res of Some (TestResultFailed (Some fr) fe) \<Rightarrow> Some (JStr fr)
         | _ \<Rightarrow> map_of attrs k)
      else if k = ''failure_expanded'' then
        (case res of Some (TestResultFailed fr (Some fe)) \<Rightarrow> Some (failure_expanded_json fe)
         | _ \<Rightarrow> map_of attrs k)
      else map_of attrs k)"
  by (simp add: result_attrs_def Let_def update_conv'
      split: option.split TestResult.split)

text \<open>
  Claim C7. For every test execution and run start \<open>r\<close>, the dict of \<^verbatim>\<open>as_json(r)\<close> has
  the key \<^verbatim>\<open>result\<close> exactly when a result was set, with the value \<^verbatim>\<open>passed\<close>,
  \<^verbatim>\<open>failed\<close> or \<^verbatim>\<open>skipped\<close> of the variant; \<^verbatim>\<open>failure_reason\<close> and
  \<^verbatim>\<open>failure_expanded\<close> exactly when the result is a failure that carries the field; and
  \<^verbatim>\<open>tags\<close> exactly when the tags are not empty.
\<close>

theorem TestData_as_json_result_keys:
  "\<exists>attrs. TestData_as_json t (Some r) = Inr attrs
     \<and> map_of attrs ''result''
         = (case result t of
              None \<Rightarrow> None
            | Some TestResultPassed \<Rightarrow> Some (JStr ''passed'')
            | Some (TestResultFailed fr fe) \<Rightarrow> Some (JStr ''failed'')
            | Some TestResultSkipped \<Rightarrow> Some (JStr ''skipped''))
     \<and> map_of attrs ''failure_reason''
         = (case result t of
              Some (TestResultFailed (Some fr) fe) \<Rightarrow> Some (JStr fr)
            | _ \<Rightarrow> None)
     \<and> map_of attrs ''failure_expanded''
         = (case result t of
              Some (TestResultFailed fr (Some fe)) \<Rightarrow> Some (failure_expanded_json fe)
            | _ \<Rightarrow> None)
     \<and> map_of attrs ''tags''
         = (if tags t = [] then None else Some (tags_json (tags t)))"
  by (simp add: TestData_as_json_Some map_of_result_attrs identity_attrs_def
      split: option.split TestResult.split)

theorem TestData_as_json_result_keys_witness:
  "(\<exists>attrs. TestData_as_json failed_test (Some 900000) = Inr attrs
      \<and> map_of attrs ''result'' = Some (JStr ''failed'')
      \<and> map_of attrs ''failure_reason'' = Some (JStr ''bitter sadness'')
      \<and> map_of attrs ''failure_expanded'' = None
      \<and> map_of attrs ''tags'' = None)
   \<and> (\<exists>attrs. TestData_as_json successful_test (Some 900000) = Inr attrs
      \<and> map_of attrs ''result'' = Some (JStr ''passed'')
      \<and> map_of attrs ''failure_reason'' = None
      \<and> map_of attrs ''tags'' = Some (JDict [(''team'', JStr ''core'')]))
   \<and> (\<exists>attrs. TestData_as_json unfinished_test (Some 900000) = Inr attrs
      \<and> map_of attrs ''result'' = None)"
  using TestData_as_json_result_keys [of failed_test 900000]
    TestData_as_json_result_keys [of successful_test 900000]
    TestData_as_json_result_keys [of unfinished_test 900000]
  by (auto simp: failed_test_def successful_test_def unfinished_test_def TestData_start_def
      tags_json_def)

text \<open>
  Claim C10. For every test execution and run start \<open>r\<close>, the dict of \<^verbatim>\<open>as_json(r)\<close>
  always has the keys \<^verbatim>\<open>location\<close> and \<^verbatim>\<open>file_name\<close>, bound to null when the field is
  unset.
\<close>

theorem TestData_as_json_location_file_name:
  "\<exists>attrs. TestData_as_json t (Some r) = Inr attrs
     \<and> map_of attrs ''location''
         = Some (case location t of None \<Rightarrow> JNull | Some l \<Rightarrow> JStr l)
     \<and> map_of attrs ''file_name''
         = Some (case file_name t of None \<Rightarrow> JNull | Some f \<Rightarrow> JStr f)"
  by (simp add: TestData_as_json_Some map_of_result_attrs identity_attrs_def opt_str_json_def)

theorem TestData_as_json_location_file_name_witness:
  "(\<exists>attrs. TestData_as_json failed_test (Some 900000) = Inr attrs
      \<and> map_of attrs ''location'' = Some JNull
      \<and> map_of attrs ''file_name'' = Some (JStr ''test_b.py''))
   \<and> (\<exists>attrs. TestData_as_json unfinished_test (Some 900000) = Inr attrs
      \<and> map_of attrs ''location'' = Some JNull
      \<and> map_of attrs ''file_name'' = Some JNull)"
  using TestData_as_json_location_file_name [of failed_test 900000]
    TestData_as_json_location_file_name [of unfinished_test 900000]
  by (auto simp: failed_test_def unfinished_test_def TestData_start_def)

lemma map_result_Inr_iff:
  "map_result f xs = Inr ys \<longleftrightarrow> map f xs = map Inr ys"
proof (induction xs arbitrary: ys)
  case Nil
  then show ?case by auto
next
  case (Cons x xs)
  show ?case
  proof (cases "f x")
    case (Inl e)
    then show ?thesis by auto
  next
    case fx: (Inr y)
    show ?thesis
    proof (cases "map_result f xs")
      case (Inl e)
      have "\<And>zs. map f xs \<noteq> map Inr zs" using Cons.IH Inl by auto
      then show ?thesis using fx Inl by (cases ys) auto
    next
      case (Inr zs)
      then have "map f xs = map Inr zs" using Cons.IH by simp
      then show ?thesis using fx Inr by (cases ys) (auto simp: inj_map_eq_map)
    qed
  qed
qed

lemma filter_dropped_iff:
  "length (filter P xs) < length xs \<longleftrightarrow> (\<exists>x \<in> set xs. \<not> P x)"
proof -
  have "length (filter P xs) \<le> length xs" by (rule length_filter_le)
  moreover have "length (filter P xs) = length xs \<longleftrightarrow> (\<forall>x \<in> set xs. P x)"
    by (metis filter_id_conv length_filter_le filter_True length_filter_less less_irrefl)
  ultimately show ?thesis by (metis le_neq_implies_less less_irrefl)
qed

lemma Payload_as_json_started:
  assumes "started_at p = Some r"
  shows "Payload_as_json enc p = (payload_warnings p, Inr (payload_attrs enc p r))"
proof -
  have "map_result (\<lambda>td. TestData_as_json td (Some r)) (filter TestData_is_finished (data p))
          = Inr (map (\<lambda>td. result_attrs (result td) (identity_attrs td r))
                   (filter TestData_is_finished (data p)))"
    by (rule map_result_all_Inr) (rule TestData_as_json_Some)
  with assms show ?thesis
    by (simp add: Payload_as_json_def payload_warnings_def payload_attrs_def Let_def comp_def)
qed




lemma unstarted_payload_raises:
  "snd (Payload_as_json JDict unstarted_payload) = Inl NoneOperandError"
  by (simp add: Payload_as_json_def unstarted_payload_def init_def push_test_data_def
      successful_test_def TestData_is_finished_def TestHistory_is_finished_def
      TestData_as_json_def TestHistory_as_json_def TestSpan_as_json_def sql_span_def Let_def)

lemma unstarted_test_finish_raises:
  "finish 7000000 unstarted_test = Inl NoneOperandError"
  by (simp add: finish_def unstarted_test_def TestData_is_finished_def
      TestHistory_is_finished_def)

text \<open>
  Claim C3, amended. For every payload that has been started, or that holds no finished
  entry, \<^verbatim>\<open>as_json()\<close> returns a dict with exactly the keys \<^verbatim>\<open>format\<close> (the string
  \<^verbatim>\<open>json\<close>), \<^verbatim>\<open>run_env\<close> (the encoded run environment) and \<^verbatim>\<open>data\<close>, the encodings
  of exactly the finished entries in their order; the warning is logged if and only if
  an entry was dropped; an unfinished entry raises nothing.
\<close>

theorem Payload_as_json_finished_only:
  assumes "started_at p \<noteq> None \<or> filter TestData_is_finished (data p) = []"
  shows "\<exists>ds. Payload_as_json enc p =
            ((if \<exists>td \<in> set (data p). \<not> TestData_is_finished td
              then [unfinished_warning] else []),
             Inr [(''format'', JStr ''json''),
                  (''run_env'', enc (run_env p)),
                  (''data'', JList (map JDict ds))])
         \<and> map Inr ds = map (\<lambda>td. TestData_as_json td (started_at p))
                           (filter TestData_is_finished (data p))"
proof -
  let ?fin = "filter TestData_is_finished (data p)"
  have "\<exists>ds. map_result (\<lambda>td. TestData_as_json td (started_at p)) ?fin = Inr ds"
  proof (cases "started_at p")
    case None
    with assms have "?fin = []" by simp
    then show ?thesis by simp
  next
    case (Some r)
    have "map_result (\<lambda>td. TestData_as_json td (Some r)) ?fin
            = Inr (map (\<lambda>td. result_attrs (result td) (identity_attrs td r)) ?fin)"
      by (rule map_result_all_Inr) (rule TestData_as_json_Some)
    with Some show ?thesis by simp
  qed
  then obtain ds where ds: "map_result (\<lambda>td. TestData_as_json td (started_at p)) ?fin = Inr ds"
    by blast
  then have m: "map Inr ds = map (\<lambda>td. TestData_as_json td (started_at p)) ?fin"
    by (simp add: map_result_Inr_iff)
  have "Payload_as_json enc p =
            ((if \<exists>td \<in> set (data p). \<not> TestData_is_finished td
              then [unfinished_warning] else []),
             Inr [(''format'', JStr ''json''),
                  (''run_env'', enc (run_env p)),
                  (''data'', JList (map JDict ds))])"
    using ds by (simp add: Payload_as_json_def Let_def filter_dropped_iff)
  with m show ?thesis by blast
qed

theorem Payload_as_json_finished_only_witness:
  "started_at mixed_payload \<noteq> None
   \<and> data mixed_payload = [successful_test, unfinished_test]
   \<and> (\<exists>ds. Payload_as_json JDict mixed_payload =
              ([unfinished_warning],
               Inr [(''format'', JStr ''json''),
                    (''run_env'', JDict ci_env),
                    (''data'', JList (map JDict ds))])
         \<and> map Inr ds = [TestData_as_json successful_test (Some 900000)])"
proof -
  have s: "started_at mixed_payload = Some 900000"
    by (simp add: mixed_payload_def push_test_data_def started_def init_def)
  have d: "data mixed_payload = [successful_test, unfinished_test]"
    by (simp add: mixed_payload_def push_test_data_def started_def init_def)
  have r: "run_env mixed_payload = ci_env"
    by (simp add: mixed_payload_def push_test_data_def started_def init_def)
  have u: "\<not> TestData_is_finished unfinished_test"
    by (simp add: TestData_is_finished_def TestHistory_is_finished_def unfinished_test_def
        TestData_start_def)
  have f: "TestData_is_finished successful_test"
    by (simp add: TestData_is_finished_def TestHistory_is_finished_def successful_test_def)
  have h: "started_at mixed_payload \<noteq> None
      \<or> filter TestData_is_finished (data mixed_payload) = []"
    using s by simp
  from Payload_as_json_finished_only [OF h, of JDict] show ?thesis
    using s d r u f by simp
qed

text \<open>
  The claim C3 as it was stated, for every payload, fails on a payload that was never
  started and holds a finished entry: encoding the entry subtracts the absent run start.
\<close>

theorem Payload_as_json_unstarted_counterexample:
  "started_at unstarted_payload = None
   \<and> filter TestData_is_finished (data unstarted_payload) = [successful_test]
   \<and> snd (Payload_as_json JDict unstarted_payload) = Inl NoneOperandError"
  by (simp add: unstarted_payload_raises)
     (simp add: unstarted_payload_def init_def push_test_data_def successful_test_def
        TestData_is_finished_def TestHistory_is_finished_def)

section \<open>Finishing and tagging a test execution\<close>

text \<open>
  Claim C4, amended. A finished test execution is returned unchanged by \<^verbatim>\<open>finish()\<close>;
  an unfinished one whose history has a \<^verbatim>\<open>start_at\<close> is returned as a copy with
  \<^verbatim>\<open>end_at\<close> stamped with the clock reading and \<^verbatim>\<open>duration\<close> the difference of the
  two; and whatever \<^verbatim>\<open>finish()\<close> returns is finished, so that a second call, at any
  later clock reading, returns it unchanged.
\<close>

theorem finish_idempotent:
  "(TestData_is_finished t \<longrightarrow> finish now t = Inr t)
   \<and> (\<not> TestData_is_finished t \<and> start_at (history t) = Some s \<longrightarrow>
        finish now t =
          Inr (t\<lparr>history := (history t)\<lparr>end_at := Some now, duration := Some (now - s)\<rparr>\<rparr>))
   \<and> (finish now t = Inr t' \<longrightarrow>
        TestData_is_finished t' \<and> finish now' t' = Inr t')"
  by (auto simp: finish_def TestData_is_finished_def TestHistory_is_finished_def
      instant_sub_def and_then_def split: option.splits)

theorem finish_idempotent_witness:
  "\<not> TestData_is_finished unfinished_test
   \<and> start_at (history unfinished_test) = Some 5000000
   \<and> finish 6000000 unfinished_test =
       Inr (unfinished_test\<lparr>history := (history unfinished_test)
              \<lparr>end_at := Some 6000000, duration := Some 1000000\<rparr>\<rparr>)
   \<and> finish 9000000 (unfinished_test\<lparr>history := (history unfinished_test)
              \<lparr>end_at := Some 6000000, duration := Some 1000000\<rparr>\<rparr>) =
       Inr (unfinished_test\<lparr>history := (history unfinished_test)
              \<lparr>end_at := Some 6000000, duration := Some 1000000\<rparr>\<rparr>)
   \<and> TestData_is_finished successful_test
   \<and> finish 6000000 successful_test = Inr successful_test"
proof -
  let ?t' = "unfinished_test\<lparr>history := (history unfinished_test)
              \<lparr>end_at := Some 6000000, duration := Some 1000000\<rparr>\<rparr>"
  have a: "\<not> TestData_is_finished unfinished_test"
    by (simp add: TestData_is_finished_def TestHistory_is_finished_def unfinished_test_def
        TestData_start_def)
  have b: "start_at (history unfinished_test) = Some 5000000"
    by (simp add: unfinished_test_def TestData_start_def)
  have c: "TestData_is_finished successful_test"
    by (simp add: TestData_is_finished_def TestHistory_is_finished_def successful_test_def)
  from finish_idempotent [of unfinished_test 6000000 5000000 ?t' 9000000] a b
  have d: "finish 6000000 unfinished_test = Inr ?t'" by simp
  with finish_idempotent [of unfinished_test 6000000 5000000 ?t' 9000000]
  have e: "finish 9000000 ?t' = Inr ?t'" by blast
  from finish_idempotent [of successful_test 6000000 0 successful_test 0] c
  have f: "finish 6000000 successful_test = Inr successful_test" by blast
  from a b c d e f show ?thesis by blast
qed

text \<open>
  The claim C4 as it was stated, for every test execution, fails on an unfinished one
  whose history has no \<^verbatim>\<open>start_at\<close>: the duration cannot be computed and no copy is
  returned.
\<close>

theorem finish_without_start_counterexample:
  "\<not> TestData_is_finished unstarted_test
   \<and> finish 7000000 unstarted_test = Inl NoneOperandError"
  by (simp add: unstarted_test_finish_raises)
     (simp add: unstarted_test_def TestData_is_finished_def TestHistory_is_finished_def)







section \<open>Submission\<close>



lemma suite_payload_batches:
  "into_batches 1000 suite_payload 1 =
     Inr [suite_payload\<lparr>data := [successful_test]\<rparr>, suite_payload\<lparr>data := [failed_test]\<rparr>]"
proof -
  have d: "data suite_payload = [successful_test, failed_test]"
    by (simp add: suite_payload_def push_test_data_def started_def init_def)
  have c: "chunks 1 (data suite_payload) = [[successful_test], [failed_test]]"
    by (simp add: chunks.simps d)
  have "batch_count (length (data suite_payload)) 1 = 2"
    by (simp add: batch_count_def d)
  then show ?thesis using c by (simp add: into_batches_chunks)
qed





lemma submit_batches_yielded_prefix:
  "prefix (yielded st) (yielded (submit_batches enc api net bs st))"
proof (induction bs arbitrary: st)
  case Nil
  then show ?case by simp
next
  case (Cons batch rest)
  have a: "\<And>(st' :: submission) x. yielded st' = yielded st @ [x] \<Longrightarrow>
      prefix (yielded st) (yielded (submit_batches enc api net rest st'))"
  proof -
    fix st' :: submission and x assume "yielded st' = yielded st @ [x]"
    then have "prefix (yielded st) (yielded st')" by simp
    then show "prefix (yielded st) (yielded (submit_batches enc api net rest st'))"
      using Cons.IH [of st'] by (rule prefix_order.trans)
  qed
  show ?case
    by (auto simp: Let_def a split: option.split prod.split sum.split outcome.split)
qed

lemma submit_batches_timeout_step:
  assumes c: "credential api = Some tok"
    and s: "Payload_as_json enc batch = (ws, Inr js)"
    and n: "net (posts st) \<lparr>url = api_url api @ ''/uploads'', authorization = tok, body = js\<rparr>
              = TimedOut k msg"
  shows "submit_batches enc api net (batch # rest) st =
     submit_batches enc api net rest
       (st\<lparr>posts := posts st
                @ [\<lparr>url = api_url api @ ''/uploads'', authorization = tok, body = js\<rparr>],
           yielded := yielded st @ [None],
           warnings := warnings st @ ws @ [timeout_warning k msg]\<rparr>)"
  apply (subst submit_batches.simps)
  apply (simp only: c option.case)
  apply (simp only: s prod.case sum.case)
  apply (simp add: Let_def n)
  done

lemma submit_batches_accepted_step:
  assumes c: "credential api = Some tok"
    and s: "Payload_as_json enc batch = (ws, Inr js)"
    and n: "net (posts st) \<lparr>url = api_url api @ ''/uploads'', authorization = tok, body = js\<rparr>
              = Responded r"
    and ok: "200 \<le> status_code r" "status_code r < 300"
  shows "submit_batches enc api net (batch # rest) st =
     submit_batches enc api net rest
       (st\<lparr>posts := posts st
                @ [\<lparr>url = api_url api @ ''/uploads'', authorization = tok, body = js\<rparr>],
           warnings := warnings st @ ws,
           yielded := yielded st @ [Some r]\<rparr>)"
  apply (subst submit_batches.simps)
  apply (simp only: c option.case)
  apply (simp only: s prod.case sum.case)
  apply (simp add: Let_def n ok)
  done

lemma keyed_api_credential: "credential keyed_api = Some ''s3cr3t''"
  by (simp add: credential_def keyed_api_def API_init_def is_whitespace_def)

text \<open>
  Claim C9. With a credential, a batch whose request times out yields \<open>None\<close> for that
  batch, logs a warning that contains the name of the timeout's type, and the
  submission goes on with the remaining batches from the state so reached, the outcomes
  yielded so far staying in front. In particular, when the payload has two batches, the
  first request times out and the second is answered with a 2xx status, the outcomes
  are \<open>None\<close> and then the response.
\<close>

theorem submit_timeout_continues:
  assumes "credential api = Some tok"
  shows "(Payload_as_json enc batch = (ws, Inr js)
          \<and> net (posts st) \<lparr>url = api_url api @ ''/uploads'', authorization = tok, body = js\<rparr>
              = TimedOut k msg
          \<longrightarrow> (\<exists>st' :: submission.
                 submit_batches enc api net (batch # rest) st
                   = submit_batches enc api net rest st'
                 \<and> yielded st' = yielded st @ [None]
                 \<and> posts st' = posts st
                     @ [\<lparr>url = api_url api @ ''/uploads'', authorization = tok, body = js\<rparr>]
                 \<and> warnings st' = warnings st @ ws @ [timeout_warning k msg]
                 \<and> raised st' = raised st)
              \<and> sublist (timeout_name k) (timeout_warning k msg)
              \<and> prefix (yielded st @ [None])
                   (yielded (submit_batches enc api net (batch # rest) st)))
       \<and> (into_batches frames p b = Inr [b1, b2]
          \<and> Payload_as_json enc b1 = (ws1, Inr js1)
          \<and> Payload_as_json enc b2 = (ws2, Inr js2)
          \<and> net [] \<lparr>url = api_url api @ ''/uploads'', authorization = tok, body = js1\<rparr>
              = TimedOut k msg
          \<and> net [\<lparr>url = api_url api @ ''/uploads'', authorization = tok, body = js1\<rparr>]
                 \<lparr>url = api_url api @ ''/uploads'', authorization = tok, body = js2\<rparr>
              = Responded r
          \<and> 200 \<le> status_code r \<and> status_code r < 300
          \<longrightarrow> submit frames enc api net p b =
                     \<lparr>yielded = [None, Some r],
                      posts = [\<lparr>url = api_url api @ ''/uploads'', authorization = tok, body = js1\<rparr>,
                               \<lparr>url = api_url api @ ''/uploads'', authorization = tok, body = js2\<rparr>],
                      warnings = ws1 @ [timeout_warning k msg] @ ws2,
                      raised = None\<rparr>)"
proof (intro conjI impI)
  assume h: "Payload_as_json enc batch = (ws, Inr js)
          \<and> net (posts st) \<lparr>url = api_url api @ ''/uploads'', authorization = tok, body = js\<rparr>
              = TimedOut k msg"
  let ?req = "\<lparr>url = api_url api @ ''/uploads'', authorization = tok, body = js\<rparr>"
  let ?st' = "st\<lparr>posts := posts st @ [?req], yielded := yielded st @ [None],
                warnings := warnings st @ ws @ [timeout_warning k msg]\<rparr>"
  from h have s: "Payload_as_json enc batch = (ws, Inr js)"
    and n: "net (posts st) ?req = TimedOut k msg" by blast+
  have step: "submit_batches enc api net (batch # rest) st = submit_batches enc api net rest ?st'"
    using assms s n by (rule submit_batches_timeout_step)
  show "\<exists>st' :: submission.
                 submit_batches enc api net (batch # rest) st
                   = submit_batches enc api net rest st'
                 \<and> yielded st' = yielded st @ [None]
                 \<and> posts st' = posts st @ [?req]
                 \<and> warnings st' = warnings st @ ws @ [timeout_warning k msg]
                 \<and> raised st' = raised st"
    unfolding step by (rule exI [where x = ?st']) simp
  show "sublist (timeout_name k) (timeout_warning k msg)"
    by (simp add: timeout_warning_def)
  have "prefix (yielded ?st') (yielded (submit_batches enc api net rest ?st'))"
    by (rule submit_batches_yielded_prefix)
  then have "prefix (yielded st @ [None]) (yielded (submit_batches enc api net rest ?st'))"
    by simp
  then show "prefix (yielded st @ [None]) (yielded (submit_batches enc api net (batch # rest) st))"
    by (simp only: step)
next
  let ?req1 = "\<lparr>url = api_url api @ ''/uploads'', authorization = tok, body = js1\<rparr>"
  let ?req2 = "\<lparr>url = api_url api @ ''/uploads'', authorization = tok, body = js2\<rparr>"
  assume h: "into_batches frames p b = Inr [b1, b2]
          \<and> Payload_as_json enc b1 = (ws1, Inr js1)
          \<and> Payload_as_json enc b2 = (ws2, Inr js2)
          \<and> net [] ?req1 = TimedOut k msg
          \<and> net [?req1] ?req2 = Responded r
          \<and> 200 \<le> status_code r \<and> status_code r < 300"
  then have ib: "into_batches frames p b = Inr [b1, b2]"
    and s1: "Payload_as_json enc b1 = (ws1, Inr js1)"
    and s2: "Payload_as_json enc b2 = (ws2, Inr js2)"
    and n1: "net (posts no_submission) ?req1 = TimedOut k msg"
    and n2: "net [?req1] ?req2 = Responded r"
    and ok: "200 \<le> status_code r" "status_code r < 300"
    by (simp_all add: no_submission_def)
  let ?st1 = "no_submission\<lparr>posts := posts no_submission @ [?req1],
                yielded := yielded no_submission @ [None],
                warnings := warnings no_submission @ ws1 @ [timeout_warning k msg]\<rparr>"
  have p1: "posts ?st1 = [?req1]" by (simp add: no_submission_def)
  have "submit_batches enc api net [b1, b2] no_submission = submit_batches enc api net [b2] ?st1"
    using assms s1 n1 by (rule submit_batches_timeout_step)
  also have "\<dots> = submit_batches enc api net []
       (?st1\<lparr>posts := posts ?st1 @ [?req2],
             warnings := warnings ?st1 @ ws2,
             yielded := yielded ?st1 @ [Some r]\<rparr>)"
  proof -
    have "net (posts ?st1) ?req2 = Responded r" by (simp only: p1 n2)
    with assms s2 show ?thesis using ok by (rule submit_batches_accepted_step)
  qed
  finally show "submit frames enc api net p b =
                     \<lparr>yielded = [None, Some r], posts = [?req1, ?req2],
                      warnings = ws1 @ [timeout_warning k msg] @ ws2,
                      raised = None\<rparr>"
    by (simp add: submit_def ib no_submission_def)
qed

theorem submit_timeout_continues_witness:
  "credential keyed_api = Some ''s3cr3t''
   \<and> into_batches 1000 suite_payload 1 =
       Inr [suite_payload\<lparr>data := [successful_test]\<rparr>, suite_payload\<lparr>data := [failed_test]\<rparr>]
   \<and> flaky_transport []
        \<lparr>url = api_url keyed_api @ ''/uploads'', authorization = ''s3cr3t'',
           body = payload_attrs JDict (suite_payload\<lparr>data := [successful_test]\<rparr>) 900000\<rparr>
       = TimedOut ConnectTimeout ''Error''
   \<and> status_code accepted = 202
   \<and> submit 1000 JDict keyed_api flaky_transport suite_payload 1 =
            \<lparr>yielded = [None, Some accepted],
             posts = [\<lparr>url = api_url keyed_api @ ''/uploads'', authorization = ''s3cr3t'',
                        body = payload_attrs JDict (suite_payload\<lparr>data := [successful_test]\<rparr>)
                                 900000\<rparr>,
                      \<lparr>url = api_url keyed_api @ ''/uploads'', authorization = ''s3cr3t'',
                        body = payload_attrs JDict (suite_payload\<lparr>data := [failed_test]\<rparr>)
                                 900000\<rparr>],
             warnings = [''ConnectTimeout: Error''],
             raised = None\<rparr>
   \<and> sublist ''ConnectTimeout'' ''ConnectTimeout: Error''
   \<and> prefix [None]
        (yielded (submit_batches JDict keyed_api flaky_transport
           [suite_payload\<lparr>data := [successful_test]\<rparr>, suite_payload\<lparr>data := [failed_test]\<rparr>]
           no_submission))"
proof -
  let ?b1 = "suite_payload\<lparr>data := [successful_test]\<rparr>"
  let ?b2 = "suite_payload\<lparr>data := [failed_test]\<rparr>"
  let ?js1 = "payload_attrs JDict ?b1 900000"
  let ?js2 = "payload_attrs JDict ?b2 900000"
  let ?req1 = "\<lparr>url = api_url keyed_api @ ''/uploads'', authorization = ''s3cr3t'', body = ?js1\<rparr>"
  let ?req2 = "\<lparr>url = api_url keyed_api @ ''/uploads'', authorization = ''s3cr3t'', body = ?js2\<rparr>"
  have st: "started_at ?b1 = Some 900000" "started_at ?b2 = Some 900000"
    by (simp_all add: suite_payload_def push_test_data_def started_def init_def)
  have f: "TestData_is_finished successful_test" "TestData_is_finished failed_test"
    by (simp_all add: TestData_is_finished_def TestHistory_is_finished_def
        successful_test_def failed_test_def)
  have w: "payload_warnings ?b1 = []" "payload_warnings ?b2 = []"
    using f by (simp_all add: payload_warnings_def)
  have s1: "Payload_as_json JDict ?b1 = ([], Inr ?js1)"
    using Payload_as_json_started [OF st(1), of JDict] w by simp
  have s2: "Payload_as_json JDict ?b2 = ([], Inr ?js2)"
    using Payload_as_json_started [OF st(2), of JDict] w by simp
  have n1: "flaky_transport [] ?req1 = TimedOut ConnectTimeout ''Error''"
    by (simp add: flaky_transport_def)
  have n1': "flaky_transport (posts no_submission) ?req1 = TimedOut ConnectTimeout ''Error''"
    by (simp add: flaky_transport_def no_submission_def)
  have n2: "flaky_transport [?req1] ?req2 = Responded accepted"
    by (simp add: flaky_transport_def)
  have ok: "status_code accepted = 202" "200 \<le> status_code accepted" "status_code accepted < 300"
    by (simp_all add: accepted_def)
  have tw: "timeout_warning ConnectTimeout ''Error'' = ''ConnectTimeout: Error''"
    by (simp add: timeout_warning_def)
  note inst = submit_timeout_continues [OF keyed_api_credential,
      where enc = JDict and net = flaky_transport]
  have two: "submit 1000 JDict keyed_api flaky_transport suite_payload 1 =
            \<lparr>yielded = [None, Some accepted], posts = [?req1, ?req2],
             warnings = [] @ [timeout_warning ConnectTimeout ''Error''] @ [],
             raised = None\<rparr>"
    using inst [THEN conjunct2, rule_format, where p = suite_payload and b = 1
        and frames = 1000
        and ?b1.0 = ?b1 and ?b2.0 = ?b2 and ?ws1.0 = "[]" and ?ws2.0 = "[]"
        and ?js1.0 = ?js1 and ?js2.0 = ?js2 and k = ConnectTimeout and msg = "''Error''"
        and r = accepted]
      suite_payload_batches s1 s2 n1 n2 ok
    by blast
  have one: "sublist (timeout_name ConnectTimeout) (timeout_warning ConnectTimeout ''Error'')
     \<and> prefix (yielded no_submission @ [None])
          (yielded (submit_batches JDict keyed_api flaky_transport (?b1 # [?b2]) no_submission))"
    using inst [THEN conjunct1, rule_format, where batch = ?b1 and ws = "[]" and js = ?js1
        and st = no_submission and k = ConnectTimeout and msg = "''Error''" and rest = "[?b2]"]
      s1 n1'
    by blast
  from one have one': "sublist ''ConnectTimeout'' ''ConnectTimeout: Error''
     \<and> prefix [None]
          (yielded (submit_batches JDict keyed_api flaky_transport [?b1, ?b2] no_submission))"
    by (simp add: tw no_submission_def)
  from two have two': "submit 1000 JDict keyed_api flaky_transport suite_payload 1 =
            \<lparr>yielded = [None, Some accepted], posts = [?req1, ?req2],
             warnings = [''ConnectTimeout: Error''], raised = None\<rparr>"
    by (simp add: tw)
  from keyed_api_credential suite_payload_batches n1 ok(1) two' one' show ?thesis by blast
qed

end
